theory Spec2Isabelle
  imports Main "HOL-Library.Char_ord" "HOL-Library.AList" "HOL-Library.Log_Nat"
begin

section \<open>Go values\<close>

text \<open>
  A Go \<^verbatim>\<open>string\<close> is a sequence of bytes, here a \<^typ>\<open>string\<close> (a list of
  8-bit characters); \<^verbatim>\<open>len\<close> is \<^const>\<open>length\<close>. An \<^verbatim>\<open>error\<close> is
  represented by the text its \<^verbatim>\<open>Error()\<close> method yields.

  The dynamically typed values (\<^verbatim>\<open>any\<close>) that travel in tool arguments: what
  \<^verbatim>\<open>encoding/json\<close> produces (nil, bool, float64, string, slices and maps) and the
  \<^verbatim>\<open>int\<close> the Bridge puts into a request it builds itself. A finite float64 is
  kept as the rational number it denotes. A \<^verbatim>\<open>map[string]T\<close> is an association
  list, read with \<^const>\<open>map_of\<close> and written with \<^const>\<open>AList.update\<close>.
\<close>

type_synonym go_error = string

datatype any =
    GoNil
  | GoBool bool
  | GoInt int
  | GoFloat64 rat
  | GoString string
  | GoSlice "any list"
  | GoMap "(string \<times> any) list"

subsection \<open>strconv and integer formatting\<close>

definition isDigit :: "char \<Rightarrow> bool" where
  "isDigit c = (CHR ''0'' \<le> c \<and> c \<le> CHR ''9'')"

definition digitVal :: "char \<Rightarrow> int" where
  "digitVal c = of_char c - 48"

definition decimal :: "string \<Rightarrow> int" where
  "decimal ds = foldl (\<lambda>n c. 10 * n + digitVal c) 0 ds"

text \<open>
  \<^verbatim>\<open>strconv.Atoi\<close> on a 64-bit platform: an optional sign, then one or more decimal
  digits, and a value that fits \<^verbatim>\<open>int\<close>; anything else is an error.
\<close>

definition Atoi :: "string \<Rightarrow> int option" where
  "Atoi s =
     (let neg = (s \<noteq> [] \<and> hd s = CHR ''-'');
          ds = (if s \<noteq> [] \<and> (hd s = CHR ''-'' \<or> hd s = CHR ''+'') then tl s else s)
      in if ds = [] \<or> \<not> list_all isDigit ds then None
         else (let n = decimal ds; v = (if neg then - n else n)
               in if - (2 ^ 63) \<le> v \<and> v < 2 ^ 63 then Some v else None))"

text \<open>The verb \<^verbatim>\<open>%d\<close> of \<^verbatim>\<open>fmt.Sprintf\<close> on an \<^verbatim>\<open>int\<close>.\<close>

function digits :: "int \<Rightarrow> string" where
  "digits n = (if n < 10 then [char_of (48 + n)] else digits (n div 10) @ [char_of (48 + n mod 10)])"
  by pat_completeness auto
termination
  by (relation "measure nat") auto

declare digits.simps [simp del]

definition itoa :: "int \<Rightarrow> string" where
  "itoa i = (if i < 0 then CHR ''-'' # digits (- i) else digits i)"

text \<open>
  The conversion \<^verbatim>\<open>int(v)\<close> of a float64 truncates towards zero. Outside the
  range of \<^verbatim>\<open>int\<close> Go leaves the result to the implementation; amd64 yields the
  least \<^verbatim>\<open>int\<close>.
\<close>

definition int_of_float64 :: "rat \<Rightarrow> int" where
  "int_of_float64 v =
     (let t = (if 0 \<le> v then \<lfloor>v\<rfloor> else \<lceil>v\<rceil>)
      in if - (2 ^ 63) \<le> t \<and> t < 2 ^ 63 then t else - (2 ^ 63))"

subsection \<open>The package strings\<close>

definition HasPrefix :: "string \<Rightarrow> string \<Rightarrow> bool" where
  "HasPrefix s p = (take (length p) s = p)"

definition HasSuffix :: "string \<Rightarrow> string \<Rightarrow> bool" where
  "HasSuffix s p = (length p \<le> length s \<and> drop (length s - length p) s = p)"

text \<open>
  \<^verbatim>\<open>strings.TrimSpace\<close> removes the white space of Unicode (\<^verbatim>\<open>unicode.IsSpace\<close>)
  from both ends. On the bytes of a string these are the UTF-8 encodings of the white
  space runes: the six ASCII ones, U+0085, U+00A0, U+1680, U+2000 to U+200A, U+2028,
  U+2029, U+202F, U+205F and U+3000. A byte sequence that is not valid UTF-8 decodes to
  the replacement rune, which is no white space.
\<close>

definition spaceRunes :: "string list" where
  "spaceRunes =
     [[CHR 0x09], [CHR 0x0A], [CHR 0x0B], [CHR 0x0C], [CHR 0x0D], [CHR 0x20],
      [CHR 0xC2, CHR 0x85], [CHR 0xC2, CHR 0xA0], [CHR 0xE1, CHR 0x9A, CHR 0x80],
      [CHR 0xE2, CHR 0x80, CHR 0x80], [CHR 0xE2, CHR 0x80, CHR 0x81],
      [CHR 0xE2, CHR 0x80, CHR 0x82], [CHR 0xE2, CHR 0x80, CHR 0x83],
      [CHR 0xE2, CHR 0x80, CHR 0x84], [CHR 0xE2, CHR 0x80, CHR 0x85],
      [CHR 0xE2, CHR 0x80, CHR 0x86], [CHR 0xE2, CHR 0x80, CHR 0x87],
      [CHR 0xE2, CHR 0x80, CHR 0x88], [CHR 0xE2, CHR 0x80, CHR 0x89],
      [CHR 0xE2, CHR 0x80, CHR 0x8A], [CHR 0xE2, CHR 0x80, CHR 0xA8],
      [CHR 0xE2, CHR 0x80, CHR 0xA9], [CHR 0xE2, CHR 0x80, CHR 0xAF],
      [CHR 0xE2, CHR 0x81, CHR 0x9F], [CHR 0xE3, CHR 0x80, CHR 0x80]]"

text \<open>The white space rune a string starts with, and the one it ends with.\<close>

definition leadingSpace :: "string \<Rightarrow> string option" where
  "leadingSpace s = find (HasPrefix s) spaceRunes"

definition trailingSpace :: "string \<Rightarrow> string option" where
  "trailingSpace s = find (HasSuffix s) spaceRunes"

lemma leadingSpace_shorter:
  "leadingSpace s = Some w \<Longrightarrow> length (drop (length w) s) < length s"
proof -
  assume "leadingSpace s = Some w"
  then have "w \<in> set spaceRunes" and "HasPrefix s w"
    by (auto simp: leadingSpace_def find_Some_iff)
  moreover from \<open>w \<in> set spaceRunes\<close> have "w \<noteq> []"
    by (auto simp: spaceRunes_def)
  ultimately show ?thesis
    by (cases s) (auto simp: HasPrefix_def)
qed

lemma trailingSpace_shorter:
  "trailingSpace s = Some w \<Longrightarrow> length (take (length s - length w) s) < length s"
proof -
  assume "trailingSpace s = Some w"
  then have "w \<in> set spaceRunes" and "HasSuffix s w"
    by (auto simp: trailingSpace_def find_Some_iff)
  moreover from \<open>w \<in> set spaceRunes\<close> have "w \<noteq> []"
    by (auto simp: spaceRunes_def)
  ultimately show ?thesis
    by (cases s) (auto simp: HasSuffix_def)
qed

function TrimLeft :: "string \<Rightarrow> string" where
  "TrimLeft s = (case leadingSpace s of
                   None \<Rightarrow> s
                 | Some w \<Rightarrow> TrimLeft (drop (length w) s))"
  by pat_completeness auto
termination
  by (relation "measure length") (auto dest: leadingSpace_shorter)

function TrimRight :: "string \<Rightarrow> string" where
  "TrimRight s = (case trailingSpace s of
                    None \<Rightarrow> s
                  | Some w \<Rightarrow> TrimRight (take (length s - length w) s))"
  by pat_completeness auto
termination
  by (relation "measure length") (auto dest: trailingSpace_shorter)

declare TrimLeft.simps [simp del] TrimRight.simps [simp del]

definition TrimSpace :: "string \<Rightarrow> string" where
  "TrimSpace s = TrimRight (TrimLeft s)"

text \<open>
  \<^verbatim>\<open>strings.SplitN(s, " ", 2)\<close>: the whole string when it has no space, else the
  text before the first space and the text after it.
\<close>

definition SplitN2 :: "string \<Rightarrow> string list" where
  "SplitN2 s =
     (if CHR '' '' \<in> set s
      then [takeWhile (\<lambda>c. c \<noteq> CHR '' '') s, tl (dropWhile (\<lambda>c. c \<noteq> CHR '' '') s)]
      else [s])"

text \<open>\<^verbatim>\<open>strings.Index\<close> and \<^verbatim>\<open>strings.LastIndex\<close> for a one-byte needle.\<close>

definition Index :: "string \<Rightarrow> char \<Rightarrow> int" where
  "Index s c = (if c \<in> set s then int (length (takeWhile (\<lambda>x. x \<noteq> c) s)) else - 1)"

definition LastIndex :: "string \<Rightarrow> char \<Rightarrow> int" where
  "LastIndex s c =
     (if c \<in> set s
      then int (length s) - 1 - int (length (takeWhile (\<lambda>x. x \<noteq> c) (rev s)))
      else - 1)"

text \<open>The slice expression \<^verbatim>\<open>s[i:j]\<close>, for \<open>0 \<le> i \<le> j \<le> len(s)\<close>.\<close>

definition slice :: "string \<Rightarrow> int \<Rightarrow> int \<Rightarrow> string" where
  "slice s i j = take (nat (j - i)) (drop (nat i) s)"

text \<open>
  \<^verbatim>\<open>strings.ReplaceAll(s, old, new)\<close> for a non-empty \<open>old\<close>: the occurrences
  of \<open>old\<close> are replaced from left to right, without overlap. (The program never calls
  it with an empty \<open>old\<close>, which the model leaves unchanged.)
\<close>

function ReplaceAll :: "string \<Rightarrow> string \<Rightarrow> string \<Rightarrow> string" where
  "ReplaceAll s old new =
     (if s = [] \<or> old = [] then s
      else if HasPrefix s old then new @ ReplaceAll (drop (length old) s) old new
      else hd s # ReplaceAll (tl s) old new)"
  by pat_completeness auto
termination
  by (relation "measure (\<lambda>(s, old, new). length s)") auto

declare ReplaceAll.simps [simp del]

subsection \<open>The package encoding/json\<close>

text \<open>UTF-8: the length of the valid encoding a string starts with (0 when there is none),
  and the encoding of a rune.\<close>

definition cont :: "char \<Rightarrow> bool" where
  "cont c = (CHR 0x80 \<le> c \<and> c \<le> CHR 0xBF)"

definition validRuneLen :: "string \<Rightarrow> nat" where
  "validRuneLen s =
     (case s of
        a # b # r \<Rightarrow>
          if CHR 0xC2 \<le> a \<and> a \<le> CHR 0xDF then (if cont b then 2 else 0)
          else
            (case r of
               c # r' \<Rightarrow>
                 if a = CHR 0xE0 \<and> CHR 0xA0 \<le> b \<and> b \<le> CHR 0xBF
                    \<or> CHR 0xE1 \<le> a \<and> a \<le> CHR 0xEC \<and> cont b
                    \<or> a = CHR 0xED \<and> CHR 0x80 \<le> b \<and> b \<le> CHR 0x9F
                    \<or> CHR 0xEE \<le> a \<and> a \<le> CHR 0xEF \<and> cont b
                 then (if cont c then 3 else 0)
                 else
                   (case r' of
                      d # _ \<Rightarrow>
                        if (a = CHR 0xF0 \<and> CHR 0x90 \<le> b \<and> b \<le> CHR 0xBF
                            \<or> CHR 0xF1 \<le> a \<and> a \<le> CHR 0xF3 \<and> cont b
                            \<or> a = CHR 0xF4 \<and> CHR 0x80 \<le> b \<and> b \<le> CHR 0x8F)
                           \<and> cont c \<and> cont d
                        then 4 else 0
                    | [] \<Rightarrow> 0)
             | [] \<Rightarrow> 0)
      | _ \<Rightarrow> 0)"

definition EncodeRune :: "int \<Rightarrow> string" where
  "EncodeRune r0 =
     (let r = (if 0xD800 \<le> r0 \<and> r0 < 0xE000 \<or> 0x10FFFF < r0 then 0xFFFD else r0)
      in if r < 0x80 then [char_of r]
         else if r < 0x800 then [char_of (0xC0 + r div 64), char_of (0x80 + r mod 64)]
         else if r < 0x10000
           then [char_of (0xE0 + r div 4096), char_of (0x80 + r div 64 mod 64),
                 char_of (0x80 + r mod 64)]
         else [char_of (0xF0 + r div 262144), char_of (0x80 + r div 4096 mod 64),
               char_of (0x80 + r div 64 mod 64), char_of (0x80 + r mod 64)])"

definition hexVal :: "char \<Rightarrow> int option" where
  "hexVal c =
     (if isDigit c then Some (of_char c - 48)
      else if CHR ''a'' \<le> c \<and> c \<le> CHR ''f'' then Some (of_char c - 87)
      else if CHR ''A'' \<le> c \<and> c \<le> CHR ''F'' then Some (of_char c - 55)
      else None)"

text \<open>\<^verbatim>\<open>getu4\<close>: the number of an escape \<^verbatim>\<open>\uXXXX\<close> a string starts with.\<close>

definition getu4 :: "string \<Rightarrow> int option" where
  "getu4 s =
     (case s of
        bs # u # a # b # c # d # _ \<Rightarrow>
          if bs = CHR 0x5C \<and> u = CHR ''u''
          then (case (hexVal a, hexVal b, hexVal c, hexVal d) of
                  (Some a', Some b', Some c', Some d') \<Rightarrow>
                    Some (((a' * 16 + b') * 16 + c') * 16 + d')
                | _ \<Rightarrow> None)
          else None
      | _ \<Rightarrow> None)"

definition unescape :: "char \<Rightarrow> char option" where
  "unescape e =
     (if e = CHR 0x22 \<or> e = CHR 0x5C \<or> e = CHR ''/'' then Some e
      else if e = CHR ''b'' then Some (CHR 0x08)
      else if e = CHR ''f'' then Some (CHR 0x0C)
      else if e = CHR ''n'' then Some (CHR 0x0A)
      else if e = CHR ''r'' then Some (CHR 0x0D)
      else if e = CHR ''t'' then Some (CHR 0x09)
      else None)"

text \<open>
  One step inside a string literal: the closing quote, a syntax error (a control
  character, an unknown or incomplete escape, the end of the input), or a piece of the
  string: the bytes it denotes and the number of input bytes it takes. An escape
  \<^verbatim>\<open>\uXXXX\<close> denotes the UTF-8 of its rune (a surrogate pair one rune, a lone
  surrogate U+FFFD); a byte that starts no valid UTF-8 denotes U+FFFD.
\<close>

datatype piece = Close | Bad | Piece string nat

definition lexPiece :: "string \<Rightarrow> piece" where
  "lexPiece s =
     (let escape = getu4 s; next_escape = getu4 (drop 6 s); n = validRuneLen s
      in case s of
           [] \<Rightarrow> Bad
         | c # t \<Rightarrow>
             if c = CHR 0x22 then Close
             else if c = CHR 0x5C then
               (case t of
                  [] \<Rightarrow> Bad
                | e # _ \<Rightarrow>
                    if e = CHR ''u'' then
                      (case escape of
                         None \<Rightarrow> Bad
                       | Some rr \<Rightarrow>
                           if 0xD800 \<le> rr \<and> rr < 0xE000 then
                             (case next_escape of
                                Some rr1 \<Rightarrow>
                                  if rr < 0xDC00 \<and> 0xDC00 \<le> rr1 \<and> rr1 < 0xE000
                                  then Piece (EncodeRune (0x10000 + (rr - 0xD800) * 1024
                                                           + (rr1 - 0xDC00))) 12
                                  else Piece (EncodeRune 0xFFFD) 6
                              | None \<Rightarrow> Piece (EncodeRune 0xFFFD) 6)
                           else Piece (EncodeRune rr) 6)
                    else (case unescape e of
                            None \<Rightarrow> Bad
                          | Some ch \<Rightarrow> Piece [ch] 2))
             else if c < CHR 0x20 then Bad
             else if c < CHR 0x80 then Piece [c] 1
             else if n = 0 then Piece (EncodeRune 0xFFFD) 1
             else Piece (take n s) n)"

lemma getu4_length: "getu4 x = Some r \<Longrightarrow> 6 \<le> length x"
  by (auto simp: getu4_def split: list.splits)

lemma validRuneLen_le: "validRuneLen x \<le> length x"
  by (auto simp: validRuneLen_def split: list.splits)

lemma lexPiece_length: "lexPiece s = Piece bs k \<Longrightarrow> 0 < k \<and> k \<le> length s"
proof -
  assume a: "lexPiece s = Piece bs k"
  have "12 \<le> length s" if "getu4 (drop 6 s) = Some r" for r
    using getu4_length [OF that] by simp
  with a show ?thesis
    using validRuneLen_le [of s]
    by (auto simp: lexPiece_def Let_def
             split: list.splits if_splits option.splits dest: getu4_length)
qed

definition emit :: "string \<Rightarrow> (string \<times> string) option \<Rightarrow> (string \<times> string) option" where
  "emit bs r = map_option (\<lambda>(str, rest). (bs @ str, rest)) r"

text \<open>
  A string literal, read after its opening quote: the bytes it denotes and the input
  after its closing quote.
\<close>

function lexString :: "string \<Rightarrow> (string \<times> string) option" where
  "lexString s =
     (case lexPiece s of
        Close \<Rightarrow> Some ([], tl s)
      | Bad \<Rightarrow> None
      | Piece bs k \<Rightarrow> emit bs (lexString (drop k s)))"
  by pat_completeness auto
termination
  by (relation "measure length") (auto dest: lexPiece_length)

declare lexString.simps [simp del]

text \<open>
  \<^verbatim>\<open>strconv.ParseFloat(s, 64)\<close> on a number literal: the literal's value rounded to
  the nearest float64 (ties to even), and an error when that overflows. A negative zero
  is not told from zero.
\<close>

definition pow2 :: "int \<Rightarrow> rat" where
  "pow2 k = (if 0 \<le> k then 2 ^ nat k else 1 / 2 ^ nat (- k))"

definition pow10 :: "int \<Rightarrow> rat" where
  "pow10 k = (if 0 \<le> k then 10 ^ nat k else 1 / 10 ^ nat (- k))"

definition ilog2 :: "rat \<Rightarrow> int" where
  "ilog2 a = (let (p, q) = quotient_of a; k = bitlen p - bitlen q
              in if pow2 k \<le> a then k else k - 1)"

definition roundHalfEven :: "rat \<Rightarrow> int" where
  "roundHalfEven x =
     (let f = \<lfloor>x\<rfloor>; d = x - of_int f
      in if d < 1 / 2 then f else if 1 / 2 < d then f + 1 else if even f then f else f + 1)"

definition float64_of_rat :: "rat \<Rightarrow> rat option" where
  "float64_of_rat x =
     (if x = 0 then Some 0
      else (let a = \<bar>x\<bar>;
                e = max (ilog2 a) (- 1022);
                ulp = pow2 (e - 52);
                r = of_int (roundHalfEven (a / ulp)) * ulp
            in if pow2 1024 \<le> r then None else Some (if x < 0 then - r else r)))"

text \<open>
  A number literal at the head of the input: an optional minus, an integer part without
  a leading zero, an optional fraction and an optional exponent. Each part yields what
  it read and the input after it.
\<close>

definition intPart :: "string \<Rightarrow> (string \<times> string) option" where
  "intPart s =
     (if HasPrefix s ''0'' then Some (''0'', tl s)
      else if takeWhile isDigit s = [] then None
      else Some (takeWhile isDigit s, dropWhile isDigit s))"

definition fracPart :: "string \<Rightarrow> (string \<times> string) option" where
  "fracPart s =
     (if HasPrefix s ''.''
      then (if takeWhile isDigit (tl s) = [] then None
            else Some (takeWhile isDigit (tl s), dropWhile isDigit (tl s)))
      else Some ([], s))"

definition expPart :: "string \<Rightarrow> (int \<times> string) option" where
  "expPart s =
     (if HasPrefix s ''e'' \<or> HasPrefix s ''E''
      then (let s1 = tl s;
                eneg = HasPrefix s1 ''-'';
                s2 = (if eneg \<or> HasPrefix s1 ''+'' then tl s1 else s1);
                ed = takeWhile isDigit s2
            in if ed = [] then None
               else Some (if eneg then - decimal ed else decimal ed,
                          dropWhile isDigit s2))
      else Some (0, s))"

definition lexNumber :: "string \<Rightarrow> (rat \<times> string) option" where
  "lexNumber s =
     (let neg = HasPrefix s ''-''
      in case intPart (if neg then tl s else s) of
           None \<Rightarrow> None
         | Some (ip, s2) \<Rightarrow>
             (case fracPart s2 of
                None \<Rightarrow> None
              | Some (fd, s3) \<Rightarrow>
                  (case expPart s3 of
                     None \<Rightarrow> None
                   | Some (ex, s4) \<Rightarrow>
                       (let x = of_int (decimal (ip @ fd)) * pow10 (ex - int (length fd))
                        in map_option (\<lambda>v. (v, s4))
                             (float64_of_rat (if neg then - x else x))))))"

datatype token =
    LBrace | RBrace | LBracket | RBracket | Colon | Comma
  | TString string | TNumber rat | TTrue | TFalse | TNull

definition jsonSpace :: "char \<Rightarrow> bool" where
  "jsonSpace c = (c = CHR 0x20 \<or> c = CHR 0x09 \<or> c = CHR 0x0D \<or> c = CHR 0x0A)"

definition punct :: "char \<Rightarrow> token option" where
  "punct c =
     (if c = CHR ''{'' then Some LBrace else if c = CHR ''}'' then Some RBrace
      else if c = CHR ''['' then Some LBracket else if c = CHR '']'' then Some RBracket
      else if c = CHR '':'' then Some Colon else if c = CHR '','' then Some Comma
      else None)"

lemma lexString_shorter: "lexString s = Some (str, rest) \<Longrightarrow> length rest < length s"
proof (induction s arbitrary: str rest rule: lexString.induct)
  case (1 s)
  show ?case
  proof (cases "lexPiece s")
    case Close
    then have "s \<noteq> []" by (auto simp: lexPiece_def)
    with "1.prems" Close show ?thesis
      by (subst (asm) lexString.simps) auto
  next
    case Bad
    with "1.prems" show ?thesis
      by (subst (asm) lexString.simps) simp
  next
    case (Piece bs k)
    with "1.prems" obtain str' where "lexString (drop k s) = Some (str', rest)"
      by (subst (asm) lexString.simps) (auto simp: emit_def)
    from "1.IH" [OF Piece this] show ?thesis by simp
  qed
qed

lemma intPart_shorter: "intPart s = Some (ip, r) \<Longrightarrow> length r < length s"
proof -
  assume a: "intPart s = Some (ip, r)"
  have "length (dropWhile isDigit s) + length (takeWhile isDigit s) = length s"
    by (metis add.commute length_append takeWhile_dropWhile_id)
  with a show ?thesis
    by (cases s) (auto simp: intPart_def HasPrefix_def split: if_splits)
qed

lemma fracPart_shorter: "fracPart s = Some (fd, r) \<Longrightarrow> length r \<le> length s"
  using length_dropWhile_le [of isDigit "tl s"]
  by (cases s) (auto simp: fracPart_def split: if_splits)

lemma expPart_shorter: "expPart s = Some (ex, r) \<Longrightarrow> length r \<le> length s"
proof -
  assume a: "expPart s = Some (ex, r)"
  have "length (dropWhile isDigit (tl (tl s))) \<le> length s"
    using length_dropWhile_le [of isDigit "tl (tl s)"] by simp
  moreover have "length (dropWhile isDigit (tl s)) \<le> length s"
    using length_dropWhile_le [of isDigit "tl s"] by simp
  ultimately show ?thesis
    using a by (auto simp: expPart_def Let_def split: if_splits)
qed

lemma lexNumber_shorter: "lexNumber s = Some (v, rest) \<Longrightarrow> length rest < length s"
proof -
  assume a: "lexNumber s = Some (v, rest)"
  have "length (tl s) \<le> length s" by simp
  with a show ?thesis
    by (fastforce simp: lexNumber_def Let_def split: option.splits if_splits
          dest!: intPart_shorter fracPart_shorter expPart_shorter)
qed

text \<open>The tokens of a JSON text; \<open>None\<close> when some byte starts no token.\<close>

function tokenize :: "string \<Rightarrow> token list option" where
  "tokenize [] = Some []"
| "tokenize (c # s) =
     (if jsonSpace c then tokenize s
      else if c = CHR 0x22 then
        (case lexString s of
           None \<Rightarrow> None
         | Some (str, rest) \<Rightarrow> map_option ((#) (TString str)) (tokenize rest))
      else if c = CHR ''-'' \<or> isDigit c then
        (case lexNumber (c # s) of
           None \<Rightarrow> None
         | Some (v, rest) \<Rightarrow> map_option ((#) (TNumber v)) (tokenize rest))
      else if HasPrefix (c # s) ''true'' then map_option ((#) TTrue) (tokenize (drop 3 s))
      else if HasPrefix (c # s) ''false'' then map_option ((#) TFalse) (tokenize (drop 4 s))
      else if HasPrefix (c # s) ''null'' then map_option ((#) TNull) (tokenize (drop 3 s))
      else (case punct c of
              None \<Rightarrow> None
            | Some t \<Rightarrow> map_option ((#) t) (tokenize s)))"
  by pat_completeness auto
termination
  by (relation "measure length") (auto dest: lexString_shorter lexNumber_shorter)

declare tokenize.simps [simp del]

text \<open>
  The values of a token sequence, built the way the decoder's scanner reads: a stack of
  the containers that are open (an object with the key that awaits its value, or an
  array) and the scanner's state. A later occurrence of a key replaces an earlier one.
  More than 10000 open containers are an error.
\<close>

datatype frame = InObject "(string \<times> any) list" "string option" | InArray "any list"

datatype scan =
    BeginValue | BeginValueOrEmpty | BeginStringOrEmpty | BeginString
  | EndKey | EndValue | EndTop any

type_synonym decoder = "scan \<times> frame list"

definition maxNestingDepth :: nat where
  "maxNestingDepth = 10000"

text \<open>A value is complete: it is the result, or goes into the innermost open container.\<close>

fun endValue :: "any \<Rightarrow> frame list \<Rightarrow> decoder option" where
  "endValue v [] = Some (EndTop v, [])"
| "endValue v (InArray xs # st) = Some (EndValue, InArray (xs @ [v]) # st)"
| "endValue v (InObject m (Some k) # st) = Some (EndValue, InObject (AList.update k v m) None # st)"
| "endValue v (InObject m None # st) = None"

definition pushFrame :: "scan \<Rightarrow> frame \<Rightarrow> frame list \<Rightarrow> decoder option" where
  "pushFrame sc f st = (if length st < maxNestingDepth then Some (sc, f # st) else None)"

fun beginValue :: "token \<Rightarrow> frame list \<Rightarrow> decoder option" where
  "beginValue LBrace st = pushFrame BeginStringOrEmpty (InObject [] None) st"
| "beginValue LBracket st = pushFrame BeginValueOrEmpty (InArray []) st"
| "beginValue (TString s) st = endValue (GoString s) st"
| "beginValue (TNumber x) st = endValue (GoFloat64 x) st"
| "beginValue TTrue st = endValue (GoBool True) st"
| "beginValue TFalse st = endValue (GoBool False) st"
| "beginValue TNull st = endValue GoNil st"
| "beginValue _ st = None"

fun step :: "decoder \<Rightarrow> token \<Rightarrow> decoder option" where
  "step (BeginValue, st) t = beginValue t st"
| "step (BeginValueOrEmpty, InArray xs # st) RBracket = endValue (GoSlice xs) st"
| "step (BeginValueOrEmpty, st) t = beginValue t st"
| "step (BeginStringOrEmpty, InObject m None # st) RBrace = endValue (GoMap m) st"
| "step (BeginStringOrEmpty, InObject m None # st) (TString k) = Some (EndKey, InObject m (Some k) # st)"
| "step (BeginString, InObject m None # st) (TString k) = Some (EndKey, InObject m (Some k) # st)"
| "step (EndKey, st) Colon = Some (BeginValue, st)"
| "step (EndValue, InObject m None # st) Comma = Some (BeginString, InObject m None # st)"
| "step (EndValue, InObject m None # st) RBrace = endValue (GoMap m) st"
| "step (EndValue, InArray xs # st) Comma = Some (BeginValue, InArray xs # st)"
| "step (EndValue, InArray xs # st) RBracket = endValue (GoSlice xs) st"
| "step _ _ = None"

fun steps :: "decoder \<Rightarrow> token list \<Rightarrow> decoder option" where
  "steps d [] = Some d"
| "steps d (t # ts) = (case step d t of None \<Rightarrow> None | Some d' \<Rightarrow> steps d' ts)"

text \<open>
  \<^verbatim>\<open>json.Unmarshal(data, &v)\<close> for \<open>v\<close> of type \<^verbatim>\<open>any\<close>: the value of the
  text, or \<open>None\<close> for an error.
\<close>

definition Unmarshal :: "string \<Rightarrow> any option" where
  "Unmarshal data =
     (case tokenize data of
        None \<Rightarrow> None
      | Some ts \<Rightarrow>
          (case steps (BeginValue, []) ts of
             Some (EndTop v, _) \<Rightarrow> Some v
           | _ \<Rightarrow> None))"

text \<open>
  \<^verbatim>\<open>json.Unmarshal(data, &params)\<close> for a nil \<open>params\<close> of type
  \<^verbatim>\<open>map[string]any\<close>: an object fills the map, \<^verbatim>\<open>null\<close> leaves it nil (a map
  without entries), any other value is an error.
\<close>

definition UnmarshalMap :: "string \<Rightarrow> (string \<times> any) list option" where
  "UnmarshalMap data =
     (case Unmarshal data of
        Some (GoMap m) \<Rightarrow> Some m
      | Some GoNil \<Rightarrow> Some []
      | _ \<Rightarrow> None)"

section \<open>The Tool Gateway (mcp-server/main.go)\<close>

subsection \<open>The Jenkins client\<close>

record JenkinsClient =
  Base :: string
  User :: string
  Token :: string

text \<open>
  \<^verbatim>\<open>url.Values\<close> maps a key to its list of values; \<^verbatim>\<open>q.Set(k, v)\<close> replaces the
  values of \<open>k\<close> by the single value \<open>v\<close>.
\<close>

type_synonym Values = "(string \<times> string list) list"

definition Values_Set :: "Values \<Rightarrow> string \<Rightarrow> string \<Rightarrow> Values" where
  "Values_Set q k v = AList.update k [v] q"

text \<open>
  The request \<^verbatim>\<open>do\<close> hands to \<^verbatim>\<open>http.DefaultClient.Do\<close>: the method, the URL
  string given to \<^verbatim>\<open>http.NewRequest\<close>, the credentials of \<^verbatim>\<open>SetBasicAuth\<close> if
  it was called, and the query values that are encoded into \<^verbatim>\<open>RawQuery\<close>.
  The response is the status code and the outcome of reading the body.
\<close>

record Request =
  Method :: string
  URL :: string
  BasicAuth :: "(string \<times> string) option"
  Query :: Values

record Response =
  StatusCode :: int
  Body :: "go_error + string"

text \<open>
  What the Gateway calls outside this repository: \<^verbatim>\<open>http.NewRequest\<close> (an error, or
  the query values \<^verbatim>\<open>req.URL.Query()\<close> of the parsed URL), the HTTP round trip to the
  CI backend (a transport error, or a response) and \<^verbatim>\<open>fmt.Sprint\<close>.
\<close>

record env =
  http_NewRequest :: "string \<Rightarrow> string \<Rightarrow> go_error + Values"
  http_Do :: "Request \<Rightarrow> go_error + Response"
  fmt_Sprint :: "any \<Rightarrow> string"

text \<open>
  \<^verbatim>\<open>JenkinsClient.do\<close>. The result is paired with the requests that were handed to
  the HTTP client, in order: none when \<^verbatim>\<open>http.NewRequest\<close> fails, one otherwise.
\<close>

definition do :: "env \<Rightarrow> JenkinsClient \<Rightarrow> string \<Rightarrow> string \<Rightarrow> (string \<times> string) list
    \<Rightarrow> Request list \<times> (go_error + string)" where
  "do e jc method path params =
     (case http_NewRequest e method (Base jc @ path) of
        Inl err \<Rightarrow> ([], Inl err)
      | Inr q0 \<Rightarrow>
          (let req = \<lparr>Method = method, URL = Base jc @ path,
                      BasicAuth = (if User jc \<noteq> [] \<or> Token jc \<noteq> []
                                   then Some (User jc, Token jc) else None),
                      Query = fold (\<lambda>(k, v) q. Values_Set q k v) params q0\<rparr>
           in case http_Do e req of
                Inl err \<Rightarrow> ([req], Inl err)
              | Inr resp \<Rightarrow>
                  (case Body resp of
                     Inl err \<Rightarrow> ([req], Inl err)
                   | Inr respBytes \<Rightarrow>
                       if StatusCode resp \<ge> 400
                       then ([req], Inl (''jenkins error: status='' @ itoa (StatusCode resp)
                                          @ '' body='' @ respBytes))
                       else ([req], Inr respBytes))))"

definition TriggerJob :: "env \<Rightarrow> JenkinsClient \<Rightarrow> string \<Rightarrow> (string \<times> string) list
    \<Rightarrow> Request list \<times> go_error option" where
  "TriggerJob e jc jobName params =
     (let path = (if length params > 0
                  then ''/job/'' @ jobName @ ''/buildWithParameters''
                  else ''/job/'' @ jobName @ ''/build'')
      in case do e jc ''POST'' path params of
           (reqs, Inl err) \<Rightarrow> (reqs, Some (''failed to trigger job: '' @ err))
         | (reqs, Inr _) \<Rightarrow> (reqs, None))"

subsection \<open>Tool handlers\<close>

text \<open>
  A tool result is built by one of three constructors of the MCP library. A handler
  returns a result, or panics (the unchecked assertion that the arguments are a
  \<^verbatim>\<open>map[string]any\<close>).
\<close>

datatype CallToolResult =
    NewToolResultText string
  | NewToolResultStructuredOnly any
  | NewToolResultError string

datatype outcome = Returned CallToolResult | Panicked

text \<open>
  The assertion \<^verbatim>\<open>m[key].(string)\<close> in its two-valued form: the string and
  \<^verbatim>\<open>true\<close>, or the empty string and \<^verbatim>\<open>false\<close> when the key is missing or its
  value is no string.
\<close>

definition stringArg :: "(string \<times> any) list \<Rightarrow> string \<Rightarrow> string \<times> bool" where
  "stringArg m key = (case map_of m key of Some (GoString s) \<Rightarrow> (s, True) | _ \<Rightarrow> ([], False))"

text \<open>
  The parameters of \<^verbatim>\<open>trigger_job\<close>: when the argument \<^verbatim>\<open>parameters\<close> is an
  object, a map with \<^verbatim>\<open>params[k] = fmt.Sprint(v)\<close> for each of its entries; else the
  nil map.
\<close>

definition parameters_of :: "env \<Rightarrow> (string \<times> any) list \<Rightarrow> (string \<times> string) list" where
  "parameters_of e argMap =
     (case map_of argMap ''parameters'' of
        Some (GoMap p) \<Rightarrow> fold (\<lambda>(k, v) params. AList.update k (fmt_Sprint e v) params) p []
      | _ \<Rightarrow> [])"

definition triggerHandler :: "env \<Rightarrow> JenkinsClient \<Rightarrow> any \<Rightarrow> Request list \<times> outcome" where
  "triggerHandler e jc arguments =
     (case arguments of
        GoMap argMap \<Rightarrow>
          (let (jobNameVal, ok) = stringArg argMap ''job_name''
           in if \<not> ok \<or> jobNameVal = []
              then ([], Returned (NewToolResultError ''job_name is required''))
              else
                (let params = parameters_of e argMap
                 in case TriggerJob e jc jobNameVal params of
                      (reqs, Some err) \<Rightarrow> (reqs, Returned (NewToolResultError err))
                    | (reqs, None) \<Rightarrow>
                        (reqs, Returned (NewToolResultText ''job triggered successfully!''))))
      | _ \<Rightarrow> ([], Panicked))"

text \<open>The type switch on \<^verbatim>\<open>build_number\<close> of the console-log handler.\<close>

definition buildNumber_of :: "any \<Rightarrow> string + int" where
  "buildNumber_of val =
     (case val of
        GoInt v \<Rightarrow> Inr v
      | GoFloat64 v \<Rightarrow> Inr (int_of_float64 v)
      | GoString v \<Rightarrow>
          (case Atoi v of
             None \<Rightarrow> Inl ''invalid build_number string''
           | Some n \<Rightarrow> Inr n)
      | _ \<Rightarrow> Inl ''invalid build_number type'')"

definition truncated_marker :: string where
  "truncated_marker = CHR 0x0A # ''...(truncated)''"

definition consoleHandler :: "env \<Rightarrow> JenkinsClient \<Rightarrow> any \<Rightarrow> Request list \<times> outcome" where
  "consoleHandler e jc arguments =
     (case arguments of
        GoMap argMap \<Rightarrow>
          (let jobNameVal = fst (stringArg argMap ''job_name'')
           in case map_of argMap ''build_number'' of
                None \<Rightarrow> ([], Returned (NewToolResultError ''missing build_number''))
              | Some val \<Rightarrow>
                  (case buildNumber_of val of
                     Inl msg \<Rightarrow> ([], Returned (NewToolResultError msg))
                   | Inr buildNumber \<Rightarrow>
                       (case do e jc ''GET''
                               (''/job/'' @ jobNameVal @ ''/'' @ itoa buildNumber @ ''/consoleText'')
                               [] of
                          (reqs, Inl err) \<Rightarrow> (reqs, Returned (NewToolResultError err))
                        | (reqs, Inr logText) \<Rightarrow>
                            (reqs, Returned (NewToolResultText
                               (if length logText > 100000
                                then take 100000 logText @ truncated_marker
                                else logText))))))
      | _ \<Rightarrow> ([], Panicked))"

definition statusHandler :: "env \<Rightarrow> JenkinsClient \<Rightarrow> any \<Rightarrow> Request list \<times> outcome" where
  "statusHandler e jc arguments =
     (case arguments of
        GoMap argMap \<Rightarrow>
          (let jobNameVal = fst (stringArg argMap ''job_name'')
           in case do e jc ''GET'' (''/job/'' @ jobNameVal @ ''/lastBuild/api/json'') [] of
                (reqs, Inl err) \<Rightarrow> (reqs, Returned (NewToolResultError err))
              | (reqs, Inr data) \<Rightarrow>
                  (case Unmarshal data of
                     None \<Rightarrow> (reqs, Returned (NewToolResultText data))
                   | Some parsed \<Rightarrow> (reqs, Returned (NewToolResultStructuredOnly parsed))))
      | _ \<Rightarrow> ([], Panicked))"

subsection \<open>The tool protocol between Bridge and Gateway\<close>

text \<open>
  Arguments cross the transport as JSON: an \<^verbatim>\<open>int\<close> arrives as a float64, and a
  string as valid UTF-8 (bytes that are none become U+FFFD).
\<close>

function toValidUTF8 :: "string \<Rightarrow> string" where
  "toValidUTF8 [] = []"
| "toValidUTF8 (c # s) =
     (if c < CHR 0x80 then c # toValidUTF8 s
      else (let n = validRuneLen (c # s)
            in if n = 0 then EncodeRune 0xFFFD @ toValidUTF8 s
               else take n (c # s) @ toValidUTF8 (drop (n - 1) s)))"
  by pat_completeness auto
termination
  by (relation "measure length") auto

declare toValidUTF8.simps [simp del]

fun wire :: "any \<Rightarrow> any" where
  "wire GoNil = GoNil"
| "wire (GoBool b) = GoBool b"
| "wire (GoInt n) = (case float64_of_rat (of_int n) of Some x \<Rightarrow> GoFloat64 x | None \<Rightarrow> GoNil)"
| "wire (GoFloat64 x) = GoFloat64 x"
| "wire (GoString s) = GoString (toValidUTF8 s)"
| "wire (GoSlice xs) = GoSlice (map wire xs)"
| "wire (GoMap m) = GoMap (map (\<lambda>(k, v). (toValidUTF8 k, wire v)) m)"

text \<open>
  A call of a tool by name, as the MCP library serves it: the handler registered under
  the name runs on the arguments and its result is the answer, an error result
  included; only a name that is not registered, or a handler that panics, makes the
  call itself fail.
\<close>

definition deliver :: "Request list \<times> outcome \<Rightarrow> go_error + CallToolResult" where
  "deliver r = (case snd r of Returned res \<Rightarrow> Inr res | Panicked \<Rightarrow> Inl ''transport error'')"

definition serveTool :: "env \<Rightarrow> JenkinsClient \<Rightarrow> string \<Rightarrow> any \<Rightarrow> go_error + CallToolResult" where
  "serveTool e jc name arguments =
     (if name = ''trigger_job'' then deliver (triggerHandler e jc (wire arguments))
      else if name = ''get_build_status'' then deliver (statusHandler e jc (wire arguments))
      else if name = ''get_console_log'' then deliver (consoleHandler e jc (wire arguments))
      else Inl ''tool not found'')"

section \<open>The Prompt Bridge (mcp-client/main.go)\<close>

record Message =
  Role :: string
  Content :: string

record ToolCall =
  Name :: string
  Params :: "(string \<times> any) list"

subsection \<open>Parsing a directive\<close>

definition parseToolCall :: "string \<Rightarrow> ToolCall option" where
  "parseToolCall reply0 =
     (let reply = TrimSpace reply0
      in if \<not> HasPrefix reply ''TOOL:'' then None
         else
           (let raw = TrimSpace (drop (length ''TOOL:'') reply);
                parts = SplitN2 raw
            in if length parts < 2 then None
               else
                 (let name = TrimSpace (parts ! 0);
                      rawParams = TrimSpace (parts ! 1);
                      start = Index rawParams (CHR ''{'');
                      stop = LastIndex rawParams (CHR ''}'')
                  in if start = - 1 \<or> stop = - 1 \<or> stop \<le> start then None
                     else
                       (let jsonStr = slice rawParams start (stop + 1);
                            jsonStr = ReplaceAll jsonStr ''True'' ''true'';
                            jsonStr = ReplaceAll jsonStr ''False'' ''false'';
                            jsonStr = ReplaceAll jsonStr ''None'' ''null''
                        in case UnmarshalMap jsonStr of
                             None \<Rightarrow> None
                           | Some params \<Rightarrow> Some \<lparr>Name = name, Params = params\<rparr>))))"

subsection \<open>One turn of the REPL\<close>

text \<open>
  The content items of a tool result as the Bridge's type switch tells them apart: a
  \<^verbatim>\<open>*mcp.TextContent\<close> with its text, or any other item with the JSON that
  \<^verbatim>\<open>json.Marshal\<close> gives for it.
\<close>

datatype Content = TextContentPtr string | OtherContent string

definition extractTextFromContent :: "Content list \<Rightarrow> string" where
  "extractTextFromContent contents =
     TrimSpace (concat (map (\<lambda>c. (case c of TextContentPtr t \<Rightarrow> t | OtherContent b \<Rightarrow> b)
                                   @ [CHR 0x0A]) contents))"

definition convertMessages :: "Message list \<Rightarrow> Message list" where
  "convertMessages history = map (\<lambda>msg. \<lparr>Role = Role msg, Content = Content msg\<rparr>) history"

text \<open>
  What the Bridge calls outside this repository: the completion endpoint (given the
  model and the messages: an error, or the contents of the choices), the MCP client's
  \<^verbatim>\<open>CallTool\<close> (an error, or the tool's result), the text that the verb
  \<^verbatim>\<open>%v\<close> gives for the field \<^verbatim>\<open>Result\<close> of a tool result, and the field
  \<^verbatim>\<open>Content\<close> of a tool result.
\<close>

record bridge =
  CreateChatCompletion :: "string \<Rightarrow> Message list \<Rightarrow> go_error + string list"
  CallTool :: "string \<Rightarrow> any \<Rightarrow> go_error + CallToolResult"
  Result_text :: "CallToolResult \<Rightarrow> string"
  Content_of :: "CallToolResult \<Rightarrow> Content list"

text \<open>
  The body of the REPL loop on one input line: the history afterwards, or a panic (an
  empty list of choices, or the unchecked assertion that \<^verbatim>\<open>build_number\<close> is a
  float64). Every \<^verbatim>\<open>continue\<close> leaves the history with the user message appended.
  The test of \<^verbatim>\<open>err\<close> before the user message is appended reads the variable
  assigned by \<^verbatim>\<open>mcpClient.Initialize\<close>, which is \<^verbatim>\<open>nil\<close> whenever the loop is
  reached (the declarations of \<^verbatim>\<open>err\<close> in the loop body are new variables), so
  that branch is never taken and has no counterpart here.
\<close>

datatype turn_outcome = Continue "Message list" | Panic

definition analysis_primer :: string where
  "analysis_primer =
     ''You are a DevOps expert. Analyze Jenkins logs and explain errors, causes, and fixes.''"

definition turn :: "bridge \<Rightarrow> Message list \<Rightarrow> string \<Rightarrow> turn_outcome" where
  "turn b history0 input =
     (let history = history0 @ [\<lparr>Role = ''user'', Content = input\<rparr>]
      in case CreateChatCompletion b ''gpt-4'' (convertMessages history) of
           Inl err \<Rightarrow> Continue history
         | Inr [] \<Rightarrow> Panic
         | Inr (llmReply # _) \<Rightarrow>
             (case parseToolCall llmReply of
                Some toolCall \<Rightarrow>
                  if Name toolCall = ''analyze_logs'' then
                    (let jobName = fst (stringArg (Params toolCall) ''job_name'')
                     in case map_of (Params toolCall) ''build_number'' of
                          Some (GoFloat64 v) \<Rightarrow>
                            (let buildNum = int_of_float64 v
                             in case CallTool b ''get_console_log''
                                       (GoMap [(''job_name'', GoString jobName),
                                               (''build_number'', GoInt buildNum)]) of
                                  Inl err \<Rightarrow> Continue history
                                | Inr logResp \<Rightarrow>
                                    (let toolText = extractTextFromContent (Content_of b logResp)
                                     in case CreateChatCompletion b ''gpt-4o-mini''
                                               [\<lparr>Role = ''system'', Content = analysis_primer\<rparr>,
                                                \<lparr>Role = ''user'', Content = toolText\<rparr>] of
                                          Inl err \<Rightarrow> Continue history
                                        | Inr [] \<Rightarrow> Panic
                                        | Inr (result # _) \<Rightarrow>
                                            Continue (history @
                                              [\<lparr>Role = ''assistant'',
                                                Content = ''[Log analysis]: '' @ result\<rparr>])))
                        | _ \<Rightarrow> Panic)
                  else
                    (case CallTool b (Name toolCall) (GoMap (Params toolCall)) of
                       Inl err \<Rightarrow> Continue history
                     | Inr toolResp \<Rightarrow>
                         Continue (history @
                           [\<lparr>Role = ''assistant'',
                             Content = ''[Tool output]: '' @ Result_text b toolResp\<rparr>]))
              | None \<Rightarrow> Continue (history @ [\<lparr>Role = ''assistant'', Content = llmReply\<rparr>])))"

section \<open>The words of the specification\<close>

text \<open>
  A numeric string, as the specification's \<^verbatim>\<open>"42"\<close>: decimal digits, at least one,
  after an optional sign. This definition follows the specification, not the code.
\<close>

definition numeric_string :: "string \<Rightarrow> bool" where
  "numeric_string s =
     (case s of
        [] \<Rightarrow> False
      | c # cs \<Rightarrow>
          if c = CHR ''+'' \<or> c = CHR ''-'' then cs \<noteq> [] \<and> list_all isDigit cs
          else list_all isDigit (c # cs))"

text \<open>
  A directive as the specification writes it: the prefix, a tool name that is a word of
  printable ASCII characters, one space and the JSON part. The normalization of the
  literal spellings is the three replacements of \<^verbatim>\<open>parseToolCall\<close>, in their order.
\<close>

definition printable :: "char \<Rightarrow> bool" where
  "printable c = (CHR 0x21 \<le> c \<and> c \<le> CHR 0x7E)"

definition word :: "string \<Rightarrow> bool" where
  "word n = (n \<noteq> [] \<and> list_all printable n)"

definition normalized :: "string \<Rightarrow> string" where
  "normalized j =
     ReplaceAll (ReplaceAll (ReplaceAll j ''True'' ''true'') ''False'' ''false'') ''None'' ''null''"

definition directive :: "string \<Rightarrow> string \<Rightarrow> string" where
  "directive n j = ''TOOL: '' @ n @ '' '' @ j"

section \<open>Scenarios\<close>

text \<open>
  A backend that accepts every URL and answers every request with the given status and
  body, with \<^verbatim>\<open>fmt.Sprint\<close> as it is on strings; and a client configuration.
\<close>

definition backend :: "int \<Rightarrow> string \<Rightarrow> env" where
  "backend status body =
     \<lparr>http_NewRequest = (\<lambda>method url. Inr []),
      http_Do = (\<lambda>req. Inr \<lparr>StatusCode = status, Body = Inr body\<rparr>),
      fmt_Sprint = (\<lambda>v. case v of GoString s \<Rightarrow> s | _ \<Rightarrow> [])\<rparr>"

definition jenkins :: "string \<Rightarrow> string \<Rightarrow> JenkinsClient" where
  "jenkins user token = \<lparr>Base = ''http://jenkins:8080/jenkins'', User = user, Token = token\<rparr>"

text \<open>
  A Bridge whose completion endpoint answers every request with the one given reply and
  whose tool calls go to the given function. The field \<^verbatim>\<open>Result\<close> of a tool
  result holds only metadata of the protocol, which the handlers never set.
\<close>

definition scripted :: "string \<Rightarrow> (string \<Rightarrow> any \<Rightarrow> go_error + CallToolResult) \<Rightarrow> bridge" where
  "scripted reply tools =
     \<lparr>CreateChatCompletion = (\<lambda>model messages. Inr [reply]),
      CallTool = tools,
      Result_text = (\<lambda>r. ''{map[]}''),
      Content_of = (\<lambda>r. case r of
                            NewToolResultText t \<Rightarrow> [TextContentPtr t]
                          | NewToolResultError t \<Rightarrow> [TextContentPtr t]
                          | NewToolResultStructuredOnly v \<Rightarrow> [])\<rparr>"

section \<open>Properties of the Gateway\<close>

subsection \<open>The requests of the Jenkins client\<close>

lemma do_requests:
  "fst (do e jc method path params) =
     (case http_NewRequest e method (Base jc @ path) of
        Inl err \<Rightarrow> []
      | Inr q0 \<Rightarrow>
          [\<lparr>Method = method, URL = Base jc @ path,
            BasicAuth = (if User jc \<noteq> [] \<or> Token jc \<noteq> [] then Some (User jc, Token jc) else None),
            Query = fold (\<lambda>(k, v) q. Values_Set q k v) params q0\<rparr>])"
  by (simp add: do_def Let_def split: sum.splits)

lemma do_backend:
  "do (backend status body) jc method path [] =
     ([\<lparr>Method = method, URL = Base jc @ path,
        BasicAuth = (if User jc \<noteq> [] \<or> Token jc \<noteq> [] then Some (User jc, Token jc) else None),
        Query = []\<rparr>],
      if status \<ge> 400 then Inl (''jenkins error: status='' @ itoa status @ '' body='' @ body)
      else Inr body)"
  by (simp add: do_def backend_def Let_def)

lemma do_status_error:
  assumes "http_NewRequest e method (Base jc @ path) = Inr q0"
      and "http_Do e \<lparr>Method = method, URL = Base jc @ path,
                       BasicAuth = (if User jc \<noteq> [] \<or> Token jc \<noteq> []
                                    then Some (User jc, Token jc) else None),
                       Query = fold (\<lambda>(k, v) q. Values_Set q k v) params q0\<rparr>
             = Inr \<lparr>StatusCode = status, Body = Inr body\<rparr>"
      and "400 \<le> status"
  shows "snd (do e jc method path params)
           = Inl (''jenkins error: status='' @ itoa status @ '' body='' @ body)"
  using assms by (simp add: do_def Let_def)

subsection \<open>Numbers\<close>

lemma itoa_42: "itoa 42 = ''42''"
  by code_simp

lemma itoa_500: "itoa 500 = ''500''"
  by code_simp

lemma Atoi_42: "Atoi ''42'' = Some 42"
  by (simp add: Atoi_def decimal_def digitVal_def isDigit_def Let_def)

lemma int_of_float64_42: "int_of_float64 42 = 42"
  by (simp add: int_of_float64_def Let_def)

lemma Atoi_not_numeric: "\<not> numeric_string s \<Longrightarrow> Atoi s = None"
  by (cases s) (auto simp: numeric_string_def Atoi_def Let_def)

subsection \<open>The request of \<^verbatim>\<open>TriggerJob\<close>\<close>















text \<open>
  C8, as the code has it. A request carries basic auth exactly when the user name or
  the token is non-empty: one of the two is enough.
\<close>

theorem C8_basic_auth:
  "map BasicAuth (fst (do e jc method path params)) =
     (case http_NewRequest e method (Base jc @ path) of
        Inl err \<Rightarrow> []
      | Inr q0 \<Rightarrow> [if User jc \<noteq> [] \<or> Token jc \<noteq> [] then Some (User jc, Token jc) else None])"
  by (simp add: do_requests split: sum.splits)

theorem C8_basic_auth_witness:
  "map BasicAuth (fst (do (backend 200 []) (jenkins ''mcp'' ''s3cret'') ''GET'' ''/api/json'' []))
     = [Some (''mcp'', ''s3cret'')]
   \<and> map BasicAuth (fst (do (backend 200 []) (jenkins [] []) ''GET'' ''/api/json'' [])) = [None]"
  using C8_basic_auth [of "backend 200 []" "jenkins ''mcp'' ''s3cret''" "''GET''" "''/api/json''" "[]"]
        C8_basic_auth [of "backend 200 []" "jenkins [] []" "''GET''" "''/api/json''" "[]"]
  by (simp add: backend_def jenkins_def)

text \<open>
  C8 as the specification states it asks for both: with a user name and an empty token
  the request would carry no credentials. It does.
\<close>

theorem C8_user_only_counterexample:
  "map BasicAuth (fst (do (backend 200 []) (jenkins ''mcp'' []) ''GET'' ''/api/json'' []))
     = [Some (''mcp'', [])]"
  by (simp add: do_requests backend_def jenkins_def)

subsection \<open>The console log\<close>

lemma consoleHandler_number:
  assumes "map_of argMap ''build_number'' = Some val" and "buildNumber_of val = Inr n"
  shows "consoleHandler e jc (GoMap argMap) =
     (case do e jc ''GET''
             (''/job/'' @ fst (stringArg argMap ''job_name'') @ ''/'' @ itoa n @ ''/consoleText'') [] of
        (reqs, Inl err) \<Rightarrow> (reqs, Returned (NewToolResultError err))
      | (reqs, Inr logText) \<Rightarrow>
          (reqs, Returned (NewToolResultText
             (if length logText > 100000 then take 100000 logText @ truncated_marker
              else logText))))"
  using assms by (simp add: consoleHandler_def Let_def)




text \<open>
  C4. The integer 42, the float 42.0 and the string \<^verbatim>\<open>"42"\<close> all give the build
  number 42, and the request then goes to \<^verbatim>\<open>/job/{name}/42/consoleText\<close>; a
  string that is not numeric gives an error result and no request.
\<close>

theorem C4_build_number:
  "buildNumber_of (GoInt 42) = Inr 42
   \<and> buildNumber_of (GoFloat64 42) = Inr 42
   \<and> buildNumber_of (GoString ''42'') = Inr 42
   \<and> (map_of argMap ''build_number'' = Some val \<and> buildNumber_of val = Inr 42
        \<longrightarrow> fst (consoleHandler e jc (GoMap argMap))
            = fst (do e jc ''GET''
                     (''/job/'' @ fst (stringArg argMap ''job_name'') @ ''/42/consoleText'') []))
   \<and> (map_of argMap ''build_number'' = Some (GoString s) \<and> \<not> numeric_string s
        \<longrightarrow> consoleHandler e jc (GoMap argMap)
            = ([], Returned (NewToolResultError ''invalid build_number string'')))"
proof -
  have "fst (consoleHandler e jc (GoMap argMap))
          = fst (do e jc ''GET''
                   (''/job/'' @ fst (stringArg argMap ''job_name'') @ ''/42/consoleText'') [])"
    if "map_of argMap ''build_number'' = Some val" and "buildNumber_of val = Inr 42"
    using that by (simp add: consoleHandler_number itoa_42 split: prod.splits sum.splits)
  moreover have "consoleHandler e jc (GoMap argMap)
          = ([], Returned (NewToolResultError ''invalid build_number string''))"
    if "map_of argMap ''build_number'' = Some (GoString s)" and "\<not> numeric_string s"
    using that by (simp add: consoleHandler_def buildNumber_of_def Atoi_not_numeric)
  ultimately show ?thesis
    by (simp add: buildNumber_of_def Atoi_42 int_of_float64_42)
qed

theorem C4_build_number_witness:
  "map (\<lambda>v. map URL (fst (consoleHandler (backend 200 ''ok'') (jenkins ''mcp'' ''s3cret'')
                            (GoMap [(''job_name'', GoString ''demo-job''), (''build_number'', v)]))))
       [GoInt 42, GoFloat64 42, GoString ''42'']
     = replicate 3 [''http://jenkins:8080/jenkins/job/demo-job/42/consoleText'']
   \<and> consoleHandler (backend 200 ''ok'') (jenkins ''mcp'' ''s3cret'')
        (GoMap [(''job_name'', GoString ''demo-job''), (''build_number'', GoString ''forty-two'')])
     = ([], Returned (NewToolResultError ''invalid build_number string''))"
proof -
  let ?e = "backend 200 ''ok''" and ?jc = "jenkins ''mcp'' ''s3cret''"
  have n: "\<not> numeric_string ''forty-two''"
    by (simp add: numeric_string_def isDigit_def)
  have u: "map URL (fst (do ?e ?jc ''GET''
              (''/job/'' @ fst (stringArg [(''job_name'', GoString ''demo-job''), (''build_number'', v)]
                                  ''job_name'') @ ''/42/consoleText'') []))
           = [''http://jenkins:8080/jenkins/job/demo-job/42/consoleText'']" for v
    by (simp add: do_backend stringArg_def jenkins_def)
  note C4 = C4_build_number [of _ _ ?e ?jc]
  have "map URL (fst (consoleHandler ?e ?jc
                  (GoMap [(''job_name'', GoString ''demo-job''), (''build_number'', v)])))
        = [''http://jenkins:8080/jenkins/job/demo-job/42/consoleText'']"
    if "v = GoInt 42 \<or> v = GoFloat64 42 \<or> v = GoString ''42''" for v
    using that C4 [of "[(''job_name'', GoString ''demo-job''), (''build_number'', v)]" v "[]"] u [of v]
    by auto
  moreover have "consoleHandler ?e ?jc
        (GoMap [(''job_name'', GoString ''demo-job''), (''build_number'', GoString ''forty-two'')])
     = ([], Returned (NewToolResultError ''invalid build_number string''))"
    using C4 [of "[(''job_name'', GoString ''demo-job''), (''build_number'', GoString ''forty-two'')]"
                 "GoString ''forty-two''" "''forty-two''"] n
    by simp
  ultimately show ?thesis by (simp add: numeral_3_eq_3)
qed

subsection \<open>The build status\<close>




subsection \<open>Required arguments\<close>

text \<open>
  C9 at the input that fails. The tools declare \<^verbatim>\<open>job_name\<close> as required and
  \<^verbatim>\<open>trigger_job\<close> rejects a request without it; \<^verbatim>\<open>get_build_status\<close> and
  \<^verbatim>\<open>get_console_log\<close> ask the backend about the job with the empty name instead.
\<close>

theorem C9_missing_job_name:
  "statusHandler (backend 200 ''{}'') (jenkins ''mcp'' ''s3cret'') (GoMap [])
     = ([\<lparr>Method = ''GET'', URL = ''http://jenkins:8080/jenkins/job//lastBuild/api/json'',
          BasicAuth = Some (''mcp'', ''s3cret''), Query = []\<rparr>],
        Returned (NewToolResultStructuredOnly (GoMap [])))
   \<and> consoleHandler (backend 200 ''log'') (jenkins ''mcp'' ''s3cret'')
        (GoMap [(''build_number'', GoFloat64 42)])
     = ([\<lparr>Method = ''GET'', URL = ''http://jenkins:8080/jenkins/job//42/consoleText'',
          BasicAuth = Some (''mcp'', ''s3cret''), Query = []\<rparr>],
        Returned (NewToolResultText ''log''))
   \<and> triggerHandler (backend 200 []) (jenkins ''mcp'' ''s3cret'') (GoMap [])
     = ([], Returned (NewToolResultError ''job_name is required''))"
proof -
  have "Unmarshal ''{}'' = Some (GoMap [])"
    by code_simp
  then show ?thesis
    by (simp add: statusHandler_def consoleHandler_def triggerHandler_def stringArg_def
          buildNumber_of_def int_of_float64_42 itoa_42 do_backend jenkins_def)
qed

theorem C9_missing_job_name_witness:
  "map URL (fst (statusHandler (backend 200 ''{}'') (jenkins ''mcp'' ''s3cret'') (GoMap [])))
     = [''http://jenkins:8080/jenkins/job//lastBuild/api/json'']"
  using C9_missing_job_name by simp

section \<open>Properties of the Bridge\<close>

subsection \<open>The turn after the model's reply\<close>

lemma turn_reply:
  assumes "CreateChatCompletion b ''gpt-4''
             (convertMessages (history @ [\<lparr>Role = ''user'', Content = input\<rparr>]))
           = Inr (llmReply # others)"
  shows "turn b history input =
     (case parseToolCall llmReply of
        Some toolCall \<Rightarrow>
          if Name toolCall = ''analyze_logs'' then
            (case map_of (Params toolCall) ''build_number'' of
               Some (GoFloat64 v) \<Rightarrow>
                 (case CallTool b ''get_console_log''
                         (GoMap [(''job_name'', GoString (fst (stringArg (Params toolCall) ''job_name''))),
                                 (''build_number'', GoInt (int_of_float64 v))]) of
                    Inl err \<Rightarrow> Continue (history @ [\<lparr>Role = ''user'', Content = input\<rparr>])
                  | Inr logResp \<Rightarrow>
                      (case CreateChatCompletion b ''gpt-4o-mini''
                              [\<lparr>Role = ''system'', Content = analysis_primer\<rparr>,
                               \<lparr>Role = ''user'',
                                Content = extractTextFromContent (Content_of b logResp)\<rparr>] of
                         Inl err \<Rightarrow> Continue (history @ [\<lparr>Role = ''user'', Content = input\<rparr>])
                       | Inr [] \<Rightarrow> Panic
                       | Inr (result # _) \<Rightarrow>
                           Continue (history @ [\<lparr>Role = ''user'', Content = input\<rparr>,
                             \<lparr>Role = ''assistant'', Content = ''[Log analysis]: '' @ result\<rparr>])))
             | _ \<Rightarrow> Panic)
          else
            (case CallTool b (Name toolCall) (GoMap (Params toolCall)) of
               Inl err \<Rightarrow> Continue (history @ [\<lparr>Role = ''user'', Content = input\<rparr>])
             | Inr toolResp \<Rightarrow>
                 Continue (history @ [\<lparr>Role = ''user'', Content = input\<rparr>,
                   \<lparr>Role = ''assistant'', Content = ''[Tool output]: '' @ Result_text b toolResp\<rparr>]))
      | None \<Rightarrow> Continue (history @ [\<lparr>Role = ''user'', Content = input\<rparr>,
                                    \<lparr>Role = ''assistant'', Content = llmReply\<rparr>]))"
  using assms
  by (simp add: turn_def Let_def split: option.splits any.splits sum.splits list.splits)

lemma scripted_completion:
  "CreateChatCompletion (scripted reply tools) model messages = Inr (reply # [])"
  by (simp add: scripted_def)

lemma toValidUTF8_job_name: "toValidUTF8 ''job_name'' = ''job_name''"
  by code_simp

lemma toValidUTF8_missing_job: "toValidUTF8 ''missing-job'' = ''missing-job''"
  by code_simp


text \<open>
  C7, as the code has it. The backend answers the build request for
  \<^verbatim>\<open>missing-job\<close> with status 500 and the body \<^verbatim>\<open>no such job\<close>: the Gateway's
  result is an error result whose text holds the status and the body, and the tool call
  delivers it as the tool's result. For a directive other than \<^verbatim>\<open>analyze_logs\<close>
  the Bridge appends an assistant turn whenever the tool call delivers a result, an
  error result included; the history stays at the user message only when the call
  itself fails.
\<close>

theorem C7_failed_trigger:
  "(http_NewRequest e ''POST'' (Base jc @ ''/job/missing-job/build'') = Inr q0
     \<and> http_Do e \<lparr>Method = ''POST'', URL = Base jc @ ''/job/missing-job/build'',
                    BasicAuth = (if User jc \<noteq> [] \<or> Token jc \<noteq> []
                                 then Some (User jc, Token jc) else None),
                    Query = q0\<rparr>
         = Inr \<lparr>StatusCode = 500, Body = Inr ''no such job''\<rparr>
     \<longrightarrow> snd (triggerHandler e jc (GoMap [(''job_name'', GoString ''missing-job'')]))
           = Returned (NewToolResultError
               ''failed to trigger job: jenkins error: status=500 body=no such job'')
         \<and> serveTool e jc ''trigger_job'' (GoMap [(''job_name'', GoString ''missing-job'')])
           = Inr (NewToolResultError
               ''failed to trigger job: jenkins error: status=500 body=no such job''))
   \<and> (CreateChatCompletion b ''gpt-4''
         (convertMessages (history @ [\<lparr>Role = ''user'', Content = input\<rparr>]))
        = Inr (llmReply # others)
       \<and> parseToolCall llmReply = Some toolCall
       \<and> Name toolCall \<noteq> ''analyze_logs''
     \<longrightarrow> turn b history input =
          (case CallTool b (Name toolCall) (GoMap (Params toolCall)) of
             Inl err \<Rightarrow> Continue (history @ [\<lparr>Role = ''user'', Content = input\<rparr>])
           | Inr toolResp \<Rightarrow>
               Continue (history @ [\<lparr>Role = ''user'', Content = input\<rparr>,
                 \<lparr>Role = ''assistant'',
                  Content = ''[Tool output]: '' @ Result_text b toolResp\<rparr>])))"
proof -
  have "snd (triggerHandler e jc (GoMap [(''job_name'', GoString ''missing-job'')]))
           = Returned (NewToolResultError
               ''failed to trigger job: jenkins error: status=500 body=no such job'')"
    if "http_NewRequest e ''POST'' (Base jc @ ''/job/missing-job/build'') = Inr q0"
      and "http_Do e \<lparr>Method = ''POST'', URL = Base jc @ ''/job/missing-job/build'',
                    BasicAuth = (if User jc \<noteq> [] \<or> Token jc \<noteq> []
                                 then Some (User jc, Token jc) else None),
                    Query = q0\<rparr>
         = Inr \<lparr>StatusCode = 500, Body = Inr ''no such job''\<rparr>"
    using that
    by (simp add: triggerHandler_def stringArg_def parameters_of_def TriggerJob_def do_def
          Let_def itoa_500)
  then show ?thesis
    by (auto simp: serveTool_def deliver_def toValidUTF8_job_name toValidUTF8_missing_job turn_reply)
qed

theorem C7_failed_trigger_witness:
  \<open>serveTool (backend 500 ''no such job'') (jenkins ''mcp'' ''s3cret'') ''trigger_job''
      (GoMap [(''job_name'', GoString ''missing-job'')])
     = Inr (NewToolResultError
              ''failed to trigger job: jenkins error: status=500 body=no such job'')
   \<and> turn (scripted ''TOOL: trigger_job {"job_name":"missing-job"}''
              (\<lambda>name arguments. Inl ''connection lost''))
        [] ''run missing-job''
     = Continue [\<lparr>Role = ''user'', Content = ''run missing-job''\<rparr>]\<close>
proof -
  let ?reply = \<open>''TOOL: trigger_job {"job_name":"missing-job"}''\<close>
  let ?call = "\<lparr>Name = ''trigger_job'', Params = [(''job_name'', GoString ''missing-job'')]\<rparr>"
  let ?down = "\<lambda>(name :: string) (arguments :: any). (Inl ''connection lost'' :: go_error + CallToolResult)"
  have p: "parseToolCall ?reply = Some ?call"
    by code_simp
  have "serveTool (backend 500 ''no such job'') (jenkins ''mcp'' ''s3cret'') ''trigger_job''
      (GoMap [(''job_name'', GoString ''missing-job'')])
     = Inr (NewToolResultError
              ''failed to trigger job: jenkins error: status=500 body=no such job'')"
    using C7_failed_trigger [of "backend 500 ''no such job''" "jenkins ''mcp'' ''s3cret''" "[]"]
    by (simp add: backend_def)
  moreover have "turn (scripted ?reply ?down) [] ''run missing-job''
     = Continue [\<lparr>Role = ''user'', Content = ''run missing-job''\<rparr>]"
    using C7_failed_trigger [of _ _ _ "scripted ?reply ?down" "[]" "''run missing-job''"
            ?reply "[]" ?call]
    by (simp add: scripted_completion p) (simp add: scripted_def)
  ultimately show ?thesis by simp
qed

text \<open>
  C7 as the specification states it: after the failed dispatch the history would hold
  the user message only. It holds an assistant turn too.
\<close>

theorem C7_history_counterexample:
  \<open>turn (scripted ''TOOL: trigger_job {"job_name":"missing-job"}''
           (serveTool (backend 500 ''no such job'') (jenkins ''mcp'' ''s3cret'')))
      [] ''run missing-job''
     = Continue [\<lparr>Role = ''user'', Content = ''run missing-job''\<rparr>,
                 \<lparr>Role = ''assistant'', Content = ''[Tool output]: {map[]}''\<rparr>]\<close>
proof -
  let ?reply = \<open>''TOOL: trigger_job {"job_name":"missing-job"}''\<close>
  have p: "parseToolCall ?reply
             = Some \<lparr>Name = ''trigger_job'', Params = [(''job_name'', GoString ''missing-job'')]\<rparr>"
    by code_simp
  have s: "serveTool (backend 500 ''no such job'') (jenkins ''mcp'' ''s3cret'') ''trigger_job''
      (GoMap [(''job_name'', GoString ''missing-job'')])
     = Inr (NewToolResultError
              ''failed to trigger job: jenkins error: status=500 body=no such job'')"
    by (simp add: serveTool_def deliver_def toValidUTF8_job_name toValidUTF8_missing_job
          triggerHandler_def stringArg_def parameters_of_def TriggerJob_def do_backend itoa_500)
  show ?thesis
    by (simp add: turn_reply [OF scripted_completion] p) (simp add: scripted_def s)
qed

text \<open>
  C10. When the directive is \<^verbatim>\<open>analyze_logs\<close> and its \<^verbatim>\<open>build_number\<close> is
  not a float64 (a string, or missing), the turn panics; the Gateway's
  \<^verbatim>\<open>get_console_log\<close> takes the string \<^verbatim>\<open>"42"\<close> as build 42.
\<close>

theorem C10_analyze_logs_panic:
  "(CreateChatCompletion b ''gpt-4''
       (convertMessages (history @ [\<lparr>Role = ''user'', Content = input\<rparr>]))
      = Inr (llmReply # others)
     \<and> parseToolCall llmReply = Some toolCall
     \<and> Name toolCall = ''analyze_logs''
     \<and> (\<forall>v. map_of (Params toolCall) ''build_number'' \<noteq> Some (GoFloat64 v))
     \<longrightarrow> turn b history input = Panic)
   \<and> fst (consoleHandler e jc
            (GoMap [(''job_name'', GoString jobName), (''build_number'', GoString ''42'')]))
     = fst (do e jc ''GET'' (''/job/'' @ jobName @ ''/42/consoleText'') [])"
proof -
  have "turn b history input = Panic"
    if "CreateChatCompletion b ''gpt-4''
          (convertMessages (history @ [\<lparr>Role = ''user'', Content = input\<rparr>]))
        = Inr (llmReply # others)"
      and "parseToolCall llmReply = Some toolCall"
      and "Name toolCall = ''analyze_logs''"
      and "\<forall>v. map_of (Params toolCall) ''build_number'' \<noteq> Some (GoFloat64 v)"
    using that by (simp add: turn_reply split: option.splits any.splits)
  moreover have "fst (consoleHandler e jc
            (GoMap [(''job_name'', GoString jobName), (''build_number'', GoString ''42'')]))
     = fst (do e jc ''GET'' (''/job/'' @ jobName @ ''/42/consoleText'') [])"
    by (simp add: consoleHandler_def buildNumber_of_def Atoi_42 itoa_42 stringArg_def
             split: prod.splits sum.splits)
  ultimately show ?thesis by blast
qed

theorem C10_analyze_logs_panic_witness:
  \<open>turn (scripted ''TOOL: analyze_logs {"job_name":"demo-job","build_number":"42"}''
            (serveTool (backend 200 ''log'') (jenkins ''mcp'' ''s3cret'')))
      [] ''why did build 42 of demo-job fail'' = Panic
   \<and> turn (scripted ''TOOL: analyze_logs {"job_name":"demo-job"}''
            (serveTool (backend 200 ''log'') (jenkins ''mcp'' ''s3cret'')))
      [] ''why did demo-job fail'' = Panic\<close>
proof -
  have p1: \<open>parseToolCall ''TOOL: analyze_logs {"job_name":"demo-job","build_number":"42"}''
      = Some \<lparr>Name = ''analyze_logs'',
               Params = [(''job_name'', GoString ''demo-job''), (''build_number'', GoString ''42'')]\<rparr>\<close>
    by code_simp
  have p2: \<open>parseToolCall ''TOOL: analyze_logs {"job_name":"demo-job"}''
      = Some \<lparr>Name = ''analyze_logs'', Params = [(''job_name'', GoString ''demo-job'')]\<rparr>\<close>
    by code_simp
  let ?tools = "serveTool (backend 200 ''log'') (jenkins ''mcp'' ''s3cret'')"
  let ?r1 = \<open>''TOOL: analyze_logs {"job_name":"demo-job","build_number":"42"}''\<close>
  let ?r2 = \<open>''TOOL: analyze_logs {"job_name":"demo-job"}''\<close>
  have "turn (scripted ?r1 ?tools) [] ''why did build 42 of demo-job fail'' = Panic"
    using C10_analyze_logs_panic [of "scripted ?r1 ?tools" "[]"
            "''why did build 42 of demo-job fail''" ?r1 "[]"
            "\<lparr>Name = ''analyze_logs'',
              Params = [(''job_name'', GoString ''demo-job''), (''build_number'', GoString ''42'')]\<rparr>"]
    by (simp add: scripted_completion p1)
  moreover have "turn (scripted ?r2 ?tools) [] ''why did demo-job fail'' = Panic"
    using C10_analyze_logs_panic [of "scripted ?r2 ?tools" "[]" "''why did demo-job fail''" ?r2 "[]"
            "\<lparr>Name = ''analyze_logs'', Params = [(''job_name'', GoString ''demo-job'')]\<rparr>"]
    by (simp add: scripted_completion p2)
  ultimately show ?thesis by simp
qed

subsection \<open>Trimming and splitting a directive\<close>

lemma HasPrefix_hd: "HasPrefix s w \<Longrightarrow> w \<noteq> [] \<Longrightarrow> s \<noteq> [] \<and> hd w = hd s"
  by (cases s; cases w) (auto simp: HasPrefix_def)

lemma HasSuffix_last: "HasSuffix s w \<Longrightarrow> w \<noteq> [] \<Longrightarrow> s \<noteq> [] \<and> last w = last s"
proof -
  assume a: "HasSuffix s w" and w: "w \<noteq> []"
  then have d: "drop (length s - length w) s = w" and l: "length w \<le> length s"
    by (auto simp: HasSuffix_def)
  from w l have s: "s \<noteq> []" by auto
  have "last (drop (length s - length w) s) = last s"
    using w l by (intro last_drop) (cases w, auto)
  with d s show ?thesis by simp
qed

lemma spaceRunes_edges:
  "w \<in> set spaceRunes \<Longrightarrow> w \<noteq> [] \<and> \<not> printable (hd w) \<and> \<not> printable (last w)"
  by (auto simp: spaceRunes_def printable_def)

lemma leadingSpace_printable: "printable c \<Longrightarrow> leadingSpace (c # s) = None"
  unfolding leadingSpace_def find_None_iff
  using HasPrefix_hd spaceRunes_edges by fastforce

lemma trailingSpace_printable: "printable c \<Longrightarrow> trailingSpace (s @ [c]) = None"
  unfolding trailingSpace_def find_None_iff
  using HasSuffix_last spaceRunes_edges by fastforce

lemma TrimSpace_printable:
  assumes "s \<noteq> []" and "printable (hd s)" and "printable (last s)"
  shows "TrimSpace s = s"
proof -
  from assms obtain c t where c: "s = c # t" "printable c" by (cases s) auto
  from assms obtain u d where d: "s = u @ [d]" "printable d"
    by (cases s rule: rev_cases) auto
  have "TrimLeft s = s"
    using c by (subst TrimLeft.simps) (simp add: leadingSpace_printable)
  moreover have "TrimRight s = s"
    using d by (subst TrimRight.simps) (simp add: trailingSpace_printable)
  ultimately show ?thesis by (simp add: TrimSpace_def)
qed

lemma TrimLeft_space: "TrimLeft (CHR '' '' # s) = TrimLeft s"
proof -
  have "leadingSpace (CHR '' '' # s) = Some '' ''"
    by (simp add: leadingSpace_def spaceRunes_def HasPrefix_def)
  then show ?thesis by (subst TrimLeft.simps) simp
qed

lemma TrimSpace_space:
  assumes "s \<noteq> []" and "printable (hd s)" and "printable (last s)"
  shows "TrimSpace (CHR '' '' # s) = s"
  using TrimSpace_printable [OF assms] by (simp add: TrimSpace_def TrimLeft_space)

lemma SplitN2_word:
  assumes "list_all printable n"
  shows "SplitN2 (n @ CHR '' '' # r) = [n, r]"
proof -
  from assms have "\<forall>c\<in>set n. c \<noteq> CHR '' ''"
    by (auto simp: list_all_iff printable_def)
  then show ?thesis
    by (simp add: SplitN2_def takeWhile_tail dropWhile_append3)
qed

lemma Index_hd: "Index (c # s) c = 0"
  by (simp add: Index_def)

lemma LastIndex_last: "LastIndex (s @ [c]) c = int (length s)"
  by (simp add: LastIndex_def)

lemma slice_whole: "k = int (length s) \<Longrightarrow> slice s 0 k = s"
  by (simp add: slice_def)

text \<open>
  A directive with a brace-delimited JSON part parses to the tool name and the decoded,
  normalized JSON part.
\<close>

lemma parse_directive:
  assumes "word n"
  shows "parseToolCall (directive n (CHR ''{'' # m @ ''}''))
     = map_option (\<lambda>ps. \<lparr>Name = n, Params = ps\<rparr>)
         (UnmarshalMap (normalized (CHR ''{'' # m @ ''}'')))"
proof -
  let ?j = "CHR ''{'' # m @ ''}''"
  from assms obtain c t where n: "n = c # t" "printable c" "list_all printable n"
    by (cases n) (auto simp: word_def)
  from assms have ln: "printable (last n)"
    by (cases n rule: rev_cases) (auto simp: word_def)
  have br: "printable (CHR ''{'')" "printable (CHR ''}'')" "printable (CHR ''T'')"
    by (simp_all add: printable_def)
  have 1: "TrimSpace (directive n ?j) = directive n ?j"
    by (rule TrimSpace_printable) (simp_all add: directive_def br)
  have 2: "HasPrefix (directive n ?j) ''TOOL:''"
    by (simp add: directive_def HasPrefix_def)
  have 3: "TrimSpace (drop (length ''TOOL:'') (directive n ?j)) = n @ CHR '' '' # ?j"
    using TrimSpace_space [of "n @ CHR '' '' # ?j"] n br
    by (simp add: directive_def)
  have 4: "SplitN2 (n @ CHR '' '' # ?j) = [n, ?j]"
    by (rule SplitN2_word) (rule n)
  have 5: "TrimSpace n = n"
    using n ln by (intro TrimSpace_printable) auto
  have 6: "TrimSpace ?j = ?j"
    by (rule TrimSpace_printable) (simp_all add: br)
  have 7: "Index ?j (CHR ''{'') = 0"
    by (rule Index_hd)
  have 8: "LastIndex ?j (CHR ''}'') = int (length m) + 1"
    using LastIndex_last [of "CHR ''{'' # m" "CHR ''}''"] by simp
  have 9: "slice ?j 0 (2 + int (length m)) = ?j"
    by (rule slice_whole) simp
  show ?thesis
    unfolding parseToolCall_def Let_def 1 3 4
    by (simp add: 2 5 6 7 8 9 normalized_def split: option.splits)
qed

subsection \<open>Replacing the literal spellings\<close>

lemma HasPrefix_append:
  "HasPrefix x p \<Longrightarrow> HasPrefix (x @ y) p \<and> drop (length p) (x @ y) = drop (length p) x @ y"
proof -
  assume "HasPrefix x p"
  then have t: "take (length p) x = p" by (simp add: HasPrefix_def)
  then have "length (take (length p) x) = length p" by simp
  then have "length p \<le> length x" by simp
  with t show ?thesis by (simp add: HasPrefix_def)
qed

lemma HasPrefix_longer:
  assumes "HasPrefix (x @ y) p" and "\<not> HasPrefix x p"
  shows "length x < length p \<and> p = x @ take (length p - length x) y"
proof -
  have "length x < length p"
  proof (rule ccontr)
    assume "\<not> length x < length p"
    with assms(1) have "HasPrefix x p" by (simp add: HasPrefix_def)
    with assms(2) show False by simp
  qed
  with assms(1) show ?thesis by (simp add: HasPrefix_def)
qed

lemma ReplaceAll_Nil: "ReplaceAll [] old new = []"
  by (simp add: ReplaceAll.simps)

lemma ReplaceAll_other:
  "c \<noteq> hd old \<Longrightarrow> ReplaceAll (c # s) old new = c # ReplaceAll s old new"
  by (subst ReplaceAll.simps, cases old) (auto simp: HasPrefix_def ReplaceAll.simps [of s "[]"])

lemma ReplaceAll_split:
  "c \<notin> set old \<Longrightarrow>
     ReplaceAll (x @ c # y) old new = ReplaceAll x old new @ c # ReplaceAll y old new"
proof (induction x old new rule: ReplaceAll.induct)
  case (1 s old new)
  show ?case
  proof (cases "s = [] \<or> old = []")
    case True
    then show ?thesis
    proof
      assume "s = []"
      moreover from "1.prems" have "old = [] \<or> c \<noteq> hd old" by (cases old) auto
      ultimately show ?thesis
        by (auto simp: ReplaceAll_other ReplaceAll_Nil ReplaceAll.simps [of _ "[]"])
    next
      assume "old = []"
      then show ?thesis by (simp add: ReplaceAll.simps [of _ "[]"])
    qed
  next
    case False
    then have ne: "s \<noteq> []" "old \<noteq> []" by auto
    show ?thesis
    proof (cases "HasPrefix s old")
      case True
      from HasPrefix_append [OF True, of "c # y"] "1.IH"(1) [OF False True "1.prems"] ne True
      show ?thesis
        by (subst ReplaceAll.simps, subst (2) ReplaceAll.simps) simp
    next
      case no: False
      have "\<not> HasPrefix (s @ c # y) old"
      proof
        assume "HasPrefix (s @ c # y) old"
        from HasPrefix_longer [OF this no]
        have "length s < length old" and "old = s @ take (length old - length s) (c # y)"
          by auto
        moreover from this obtain k where "length old - length s = Suc k"
          using gr0_implies_Suc [of "length old - length s"] by auto
        ultimately have "old = s @ take (Suc k) (c # y)" by simp
        then have "old = s @ c # take k y" by simp
        then have "c \<in> set old" by (metis in_set_conv_decomp)
        with "1.prems" show False by simp
      qed
      with "1.IH"(2) [OF False no "1.prems"] ne no
      show ?thesis
        by (subst ReplaceAll.simps, subst (2) ReplaceAll.simps) (cases s, auto)
    qed
  qed
qed

lemma ReplaceAll_occurrence:
  "old \<noteq> [] \<Longrightarrow> hd old \<notin> set (tl old) \<Longrightarrow>
     ReplaceAll (x @ old @ y) old new = ReplaceAll x old new @ new @ ReplaceAll y old new"
proof (induction x old new rule: ReplaceAll.induct)
  case (1 s old new)
  show ?case
  proof (cases "s = []")
    case True
    with "1.prems" show ?thesis
      by (subst ReplaceAll.simps) (simp add: HasPrefix_def ReplaceAll_Nil)
  next
    case False
    with "1.prems" have ne: "\<not> (s = [] \<or> old = [])" by simp
    show ?thesis
    proof (cases "HasPrefix s old")
      case True
      from HasPrefix_append [OF True, of "old @ y"] "1.IH"(1) [OF ne True "1.prems"] ne True
      show ?thesis
        by (subst ReplaceAll.simps, subst (2) ReplaceAll.simps) simp
    next
      case no: False
      have "\<not> HasPrefix (s @ old @ y) old"
      proof
        assume "HasPrefix (s @ old @ y) old"
        from HasPrefix_longer [OF this no]
        have l: "length s < length old" and e: "old = s @ take (length old - length s) (old @ y)"
          by auto
        from l obtain h t where old: "old = h # t" by (cases old) auto
        from l obtain k where k: "length old - length s = Suc k"
          using gr0_implies_Suc [of "length old - length s"] by auto
        from e have "old = s @ take (Suc k) (old @ y)" by (simp only: k)
        moreover have "take (Suc k) (old @ y) = h # take k (t @ y)" by (simp add: old)
        ultimately obtain rest where r: "old = s @ h # rest" by metis
        from False obtain a s' where s: "s = a # s'" by (cases s) auto
        from r have "h # t = (a # s') @ h # rest" unfolding old s .
        then have "t = s' @ h # rest" by simp
        then have "h \<in> set t" by (metis in_set_conv_decomp)
        then have "h \<in> set (tl old)" by (simp add: old)
        with "1.prems" show False by (simp add: old)
      qed
      with "1.IH"(2) [OF ne no "1.prems"] ne no
      show ?thesis
        by (subst ReplaceAll.simps, subst (2) ReplaceAll.simps) (cases s, auto)
    qed
  qed
qed

lemma ReplaceAll_last:
  "c \<noteq> last old \<Longrightarrow> ReplaceAll (x @ [c]) old new = ReplaceAll x old new @ [c]"
proof (induction x old new rule: ReplaceAll.induct)
  case (1 s old new)
  show ?case
  proof (cases "s = [] \<or> old = []")
    case True
    then show ?thesis
    proof
      assume s: "s = []"
      show ?thesis
      proof (cases "old = []")
        case True
        then show ?thesis by (simp add: ReplaceAll.simps [of _ "[]"])
      next
        case False
        with "1.prems" have "\<not> HasPrefix [c] old"
          by (cases old) (auto simp: HasPrefix_def)
        with False s show ?thesis
          by (subst ReplaceAll.simps) (simp add: ReplaceAll_Nil)
      qed
    next
      assume "old = []"
      then show ?thesis by (simp add: ReplaceAll.simps [of _ "[]"])
    qed
  next
    case False
    then have ne: "s \<noteq> []" "old \<noteq> []" by auto
    show ?thesis
    proof (cases "HasPrefix s old")
      case True
      from HasPrefix_append [OF True, of "[c]"] "1.IH"(1) [OF False True "1.prems"] ne True
      show ?thesis
        by (subst ReplaceAll.simps, subst (2) ReplaceAll.simps) simp
    next
      case no: False
      have "\<not> HasPrefix (s @ [c]) old"
      proof
        assume "HasPrefix (s @ [c]) old"
        from HasPrefix_longer [OF this no]
        have "length s < length old" and "old = s @ take (length old - length s) [c]"
          by auto
        moreover from this obtain k where "length old - length s = Suc k"
          using gr0_implies_Suc [of "length old - length s"] by auto
        ultimately have "old = s @ take (Suc k) [c]" by simp
        then have "old = s @ [c]" by simp
        with "1.prems" show False by simp
      qed
      with "1.IH"(2) [OF False no "1.prems"] ne no
      show ?thesis
        by (subst ReplaceAll.simps, subst (2) ReplaceAll.simps) (cases s, auto)
    qed
  qed
qed

lemma normalized_True: "normalized (x @ ''True'' @ y) = normalized (x @ ''true'' @ y)"
proof -
  have "ReplaceAll (x @ ''True'' @ y) ''True'' ''true''
          = ReplaceAll x ''True'' ''true'' @ ''true'' @ ReplaceAll y ''True'' ''true''"
    by (rule ReplaceAll_occurrence) simp_all
  moreover have "ReplaceAll (x @ ''true'' @ y) ''True'' ''true''
          = ReplaceAll x ''True'' ''true'' @ ''true'' @ ReplaceAll y ''True'' ''true''"
    by (simp add: ReplaceAll_split ReplaceAll_other)
  ultimately show ?thesis by (simp add: normalized_def)
qed

lemma normalized_False: "normalized (x @ ''False'' @ y) = normalized (x @ ''false'' @ y)"
proof -
  let ?x = "ReplaceAll x ''True'' ''true''" and ?y = "ReplaceAll y ''True'' ''true''"
  have "ReplaceAll (x @ ''False'' @ y) ''True'' ''true'' = ?x @ ''False'' @ ?y"
    by (simp add: ReplaceAll_split ReplaceAll_other)
  moreover have "ReplaceAll (x @ ''false'' @ y) ''True'' ''true'' = ?x @ ''false'' @ ?y"
    by (simp add: ReplaceAll_split ReplaceAll_other)
  moreover have "ReplaceAll (?x @ ''False'' @ ?y) ''False'' ''false''
          = ReplaceAll ?x ''False'' ''false'' @ ''false'' @ ReplaceAll ?y ''False'' ''false''"
    by (rule ReplaceAll_occurrence) simp_all
  moreover have "ReplaceAll (?x @ ''false'' @ ?y) ''False'' ''false''
          = ReplaceAll ?x ''False'' ''false'' @ ''false'' @ ReplaceAll ?y ''False'' ''false''"
    by (simp add: ReplaceAll_split ReplaceAll_other)
  ultimately show ?thesis by (simp only: normalized_def)
qed

lemma normalized_None: "normalized (x @ ''None'' @ y) = normalized (x @ ''null'' @ y)"
proof -
  let ?x = "ReplaceAll x ''True'' ''true''" and ?y = "ReplaceAll y ''True'' ''true''"
  let ?x' = "ReplaceAll ?x ''False'' ''false''" and ?y' = "ReplaceAll ?y ''False'' ''false''"
  have "ReplaceAll (x @ ''None'' @ y) ''True'' ''true'' = ?x @ ''None'' @ ?y"
    by (simp add: ReplaceAll_split ReplaceAll_other)
  moreover have "ReplaceAll (x @ ''null'' @ y) ''True'' ''true'' = ?x @ ''null'' @ ?y"
    by (simp add: ReplaceAll_split ReplaceAll_other)
  moreover have "ReplaceAll (?x @ ''None'' @ ?y) ''False'' ''false'' = ?x' @ ''None'' @ ?y'"
    by (simp add: ReplaceAll_split ReplaceAll_other)
  moreover have "ReplaceAll (?x @ ''null'' @ ?y) ''False'' ''false'' = ?x' @ ''null'' @ ?y'"
    by (simp add: ReplaceAll_split ReplaceAll_other)
  moreover have "ReplaceAll (?x' @ ''None'' @ ?y') ''None'' ''null''
          = ReplaceAll ?x' ''None'' ''null'' @ ''null'' @ ReplaceAll ?y' ''None'' ''null''"
    by (rule ReplaceAll_occurrence) simp_all
  moreover have "ReplaceAll (?x' @ ''null'' @ ?y') ''None'' ''null''
          = ReplaceAll ?x' ''None'' ''null'' @ ''null'' @ ReplaceAll ?y' ''None'' ''null''"
  proof -
    have "ReplaceAll ((?x' @ ''n'') @ CHR ''u'' # ''ll'' @ ?y') ''None'' ''null''
            = ReplaceAll (?x' @ ''n'') ''None'' ''null''
              @ CHR ''u'' # ReplaceAll (''ll'' @ ?y') ''None'' ''null''"
      by (rule ReplaceAll_split) simp
    moreover have "ReplaceAll (?x' @ ''n'') ''None'' ''null'' = ReplaceAll ?x' ''None'' ''null'' @ ''n''"
      by (rule ReplaceAll_last) simp
    moreover have "ReplaceAll (''ll'' @ ?y') ''None'' ''null'' = ''ll'' @ ReplaceAll ?y' ''None'' ''null''"
      by (simp add: ReplaceAll_other)
    ultimately show ?thesis by simp
  qed
  ultimately show ?thesis by (simp only: normalized_def)
qed

text \<open>
  C6, as the code has it. In a directive with a brace-delimited JSON part, the
  spellings \<^verbatim>\<open>True\<close>, \<^verbatim>\<open>False\<close> and \<^verbatim>\<open>None\<close> anywhere in that part parse as
  \<^verbatim>\<open>true\<close>, \<^verbatim>\<open>false\<close> and \<^verbatim>\<open>null\<close> do: exactly these spellings, and no other
  capitalization.
\<close>

theorem C6_literal_spellings:
  assumes "word n"
  shows "parseToolCall (directive n (CHR ''{'' # a @ ''True'' @ b @ ''}''))
           = parseToolCall (directive n (CHR ''{'' # a @ ''true'' @ b @ ''}''))
       \<and> parseToolCall (directive n (CHR ''{'' # a @ ''False'' @ b @ ''}''))
           = parseToolCall (directive n (CHR ''{'' # a @ ''false'' @ b @ ''}''))
       \<and> parseToolCall (directive n (CHR ''{'' # a @ ''None'' @ b @ ''}''))
           = parseToolCall (directive n (CHR ''{'' # a @ ''null'' @ b @ ''}''))"
proof -
  have "parseToolCall (directive n (CHR ''{'' # a @ lit @ b @ ''}''))
          = map_option (\<lambda>ps. \<lparr>Name = n, Params = ps\<rparr>)
              (UnmarshalMap (normalized ((CHR ''{'' # a) @ lit @ (b @ ''}''))))" for lit
    using parse_directive [OF assms, of "a @ lit @ b"] by simp
  then show ?thesis
    by (simp only: normalized_True normalized_False normalized_None)
qed

theorem C6_literal_spellings_witness:
  \<open>parseToolCall ''TOOL: trigger_job {"job_name":"demo-job","dry_run":True,"token":None}''
     = Some \<lparr>Name = ''trigger_job'',
              Params = [(''job_name'', GoString ''demo-job''), (''dry_run'', GoBool True),
                        (''token'', GoNil)]\<rparr>\<close>
proof -
  let ?a = \<open>''"job_name":"demo-job","dry_run":''\<close>
  have w: "word ''trigger_job''"
    by (simp add: word_def printable_def)
  have \<open>parseToolCall ''TOOL: trigger_job {"job_name":"demo-job","dry_run":true,"token":null}''
     = Some \<lparr>Name = ''trigger_job'',
              Params = [(''job_name'', GoString ''demo-job''), (''dry_run'', GoBool True),
                        (''token'', GoNil)]\<rparr>\<close>
    by code_simp
  moreover from C6_literal_spellings [OF w, of ?a \<open>'',"token":None''\<close>]
  have \<open>parseToolCall ''TOOL: trigger_job {"job_name":"demo-job","dry_run":True,"token":None}''
     = parseToolCall ''TOOL: trigger_job {"job_name":"demo-job","dry_run":true,"token":None}''\<close>
    by (simp add: directive_def)
  moreover from C6_literal_spellings [OF w, of \<open>''"job_name":"demo-job","dry_run":true,"token":''\<close> "[]"]
  have \<open>parseToolCall ''TOOL: trigger_job {"job_name":"demo-job","dry_run":true,"token":None}''
     = parseToolCall ''TOOL: trigger_job {"job_name":"demo-job","dry_run":true,"token":null}''\<close>
    by (simp add: directive_def)
  ultimately show ?thesis by simp
qed

text \<open>
  C6 as the specification states it covers every capitalization. \<^verbatim>\<open>TRUE\<close> is not
  replaced, and the directive is discarded.
\<close>

theorem C6_upper_case_counterexample:
  \<open>parseToolCall ''TOOL: trigger_job {"job_name":"demo-job","dry_run":TRUE}'' = None
   \<and> parseToolCall ''TOOL: trigger_job {"job_name":"demo-job","dry_run":true}''
     = Some \<lparr>Name = ''trigger_job'',
              Params = [(''job_name'', GoString ''demo-job''), (''dry_run'', GoBool True)]\<rparr>\<close>
  by code_simp

subsection \<open>One closing brace more\<close>














lemma tokenize_Nil: "tokenize [] = Some []"
  by (simp add: tokenize.simps)










end
